theory Spec2Isabelle
  imports Complex_Main "HOL-Library.Word"
begin

unbundle bit_operations_syntax

section \<open>The LogLog-Beta sketch of loglogbeta.go\<close>

text \<open>
  The development follows the single source file \<^verbatim>\<open>loglogbeta.go\<close>: the constants,
  the hash splitter \<^verbatim>\<open>getPosVal\<close>, the sketch with its register array, ingestion,
  the estimator, the merger and the codec. Unsigned machine integers are words, the
  register array is a list of bytes whose length the Go type fixes at \<^verbatim>\<open>m\<close>, a
  run-time panic is a value of type \<open>panic\<close>, and the two sketches of \<^verbatim>\<open>Merge\<close>
  live in a store of objects, because receiver and argument are pointers that may
  be the same one.
\<close>

subsection \<open>Machine types\<close>

type_synonym u8 = "8 word"
type_synonym u32 = "32 word"
type_synonym u64 = "64 word"

text \<open>
  A \<^verbatim>\<open>float64\<close> is kept as its IEEE-754 binary64 bit pattern. Only what is exact is
  given a definition here (conversion of small unsigned integers, and the comparison
  \<^verbatim>\<open>==\<close>); every rounding operation is a field of \<open>float_ops\<close>, supplied from
  outside.
\<close>

type_synonym float64 = "64 word"

datatype panic = IndexOutOfRange | NilDereference

type_synonym error = string

subsection \<open>Constants\<close>

definition precision :: nat where
  "precision = 14"

definition m :: u32 where
  "m = push_bit precision 1"

text \<open>The source's constant \<^verbatim>\<open>max\<close>.\<close>

definition max_const :: nat where
  "max_const = 64 - precision"

text \<open>\<^verbatim>\<open>math.MaxUint64 >> max\<close>: the all-ones 64-bit value shifted right.\<close>

definition maxX :: u64 where
  "maxX = drop_bit max_const (- 1)"

definition version :: int where
  "version = 1"

subsection \<open>Hash splitter\<close>

text \<open>
  Modelled from the spec: \<^verbatim>\<open>bits.Clz\<close> belongs to the imported package
  \<^verbatim>\<open>github.com/dgryski/go-bits\<close>, which is not part of the source file; the spec
  describes it as the count of leading zero bits of a 64-bit value.
  \<open>clz_from n x\<close> walks down from bit \<open>n - 1\<close> and counts the zero bits above the
  first one that is set. The value at \<open>0\<close> plays no part: \<^verbatim>\<open>getPosVal\<close> never passes it.
\<close>

fun clz_from :: "nat \<Rightarrow> u64 \<Rightarrow> nat" where
  "clz_from 0 x = 0"
| "clz_from (Suc n) x = (if bit x n then 0 else Suc (clz_from n x))"

definition Clz :: "u64 \<Rightarrow> u64" where
  "Clz x = of_nat (clz_from 64 x)"

definition getPosVal :: "u64 \<Rightarrow> u64 \<times> u8" where
  "getPosVal x =
     (let val = (ucast (Clz (push_bit precision x XOR maxX)) :: u8) + 1;
          k = drop_bit max_const x
      in (k, val))"

subsection \<open>Floating point\<close>

fun bit_length :: "nat \<Rightarrow> nat" where
  "bit_length n = (if n = 0 then 0 else Suc (bit_length (n div 2)))"

declare bit_length.simps [simp del]

text \<open>
  The binary64 pattern of an unsigned integer below \<open>2 ^ 53\<close>, which is
  represented exactly: biased exponent in bits 52 to 62, fraction below.
  The source converts only a \<^verbatim>\<open>uint32\<close>, a \<^verbatim>\<open>uint8\<close> and small literals.
\<close>

definition float64_of_nat :: "nat \<Rightarrow> float64" where
  "float64_of_nat n =
     (if n = 0 then 0
      else let e = bit_length n - 1
           in push_bit 52 (of_nat (1023 + e)) OR of_nat ((n - 2 ^ e) * 2 ^ (52 - e)))"



text \<open>
  The operations that round, and the two functions of package \<^verbatim>\<open>math\<close>.
  \<open>f_lit n k\<close> is the \<^verbatim>\<open>float64\<close> of the decimal literal \<open>n / 10 ^ k\<close>.
\<close>

record float_ops =
  f_lit :: "int \<Rightarrow> nat \<Rightarrow> float64"
  f_add :: "float64 \<Rightarrow> float64 \<Rightarrow> float64"
  f_sub :: "float64 \<Rightarrow> float64 \<Rightarrow> float64"
  f_mul :: "float64 \<Rightarrow> float64 \<Rightarrow> float64"
  f_div :: "float64 \<Rightarrow> float64 \<Rightarrow> float64"
  f_log :: "float64 \<Rightarrow> float64"
  f_pow :: "float64 \<Rightarrow> float64 \<Rightarrow> float64"
  f_to_u64 :: "float64 \<Rightarrow> u64"

definition beta :: "float_ops \<Rightarrow> float64 \<Rightarrow> float64" where
  "beta fp ez =
     (let zl = f_log fp (f_add fp ez (float64_of_nat 1))
      in f_add fp (f_add fp (f_add fp (f_add fp (f_add fp (f_add fp (f_add fp
           (f_mul fp (f_lit fp (- 370393911) 9) ez)
           (f_mul fp (f_lit fp 70471823 9) zl))
           (f_mul fp (f_lit fp 17393686 8) (f_pow fp zl (float64_of_nat 2))))
           (f_mul fp (f_lit fp 16339839 8) (f_pow fp zl (float64_of_nat 3))))
           (f_mul fp (f_lit fp (- 9237745) 8) (f_pow fp zl (float64_of_nat 4))))
           (f_mul fp (f_lit fp 3738027 8) (f_pow fp zl (float64_of_nat 5))))
           (f_mul fp (f_lit fp (- 5384159) 9) (f_pow fp zl (float64_of_nat 6))))
           (f_mul fp (f_lit fp 42419 8) (f_pow fp zl (float64_of_nat 7))))"


fun regSumAndZeros_loop ::
  "float_ops \<Rightarrow> u8 list \<Rightarrow> float64 \<times> float64 \<Rightarrow> float64 \<times> float64" where
  "regSumAndZeros_loop fp [] (sum_r, ez) = (sum_r, ez)"
| "regSumAndZeros_loop fp (val # rest) (sum_r, ez) =
     (let ez' = (if val = 0 then f_add fp ez (float64_of_nat 1) else ez);
          sum' = f_add fp sum_r
                   (f_div fp (float64_of_nat 1)
                      (f_pow fp (float64_of_nat 2) (float64_of_nat (unat val))))
      in regSumAndZeros_loop fp rest (sum', ez'))"

definition regSumAndZeros :: "float_ops \<Rightarrow> u8 list \<Rightarrow> float64 \<times> float64" where
  "regSumAndZeros fp registers =
     regSumAndZeros_loop fp registers (float64_of_nat 0, float64_of_nat 0)"

subsection \<open>The sketch\<close>

record LogLogBeta =
  registers :: "u8 list"
  alpha :: float64

record savedLLB =
  Registers :: "u8 list"
  Alpha :: float64
  Version :: int

text \<open>The Go type \<^verbatim>\<open>[m]uint8\<close> of the field: exactly \<^verbatim>\<open>m\<close> registers.\<close>

definition wf_sketch :: "LogLogBeta \<Rightarrow> bool" where
  "wf_sketch llb = (length (registers llb) = unat m)"


subsection \<open>Ingestion\<close>

text \<open>
  The receiver is passed in and returned. Indexing the register array with the
  \<^verbatim>\<open>uint64\<close> index is checked at run time in Go, hence the bound test.
\<close>

definition AddHash :: "LogLogBeta \<Rightarrow> u64 \<Rightarrow> panic + LogLogBeta" where
  "AddHash llb x =
     (let (k, val) = getPosVal x
      in if unat k < length (registers llb)
         then (if registers llb ! unat k < val
               then Inr (llb\<lparr>registers := (registers llb)[unat k := val]\<rparr>)
               else Inr llb)
         else Inl IndexOutOfRange)"

text \<open>
  \<^verbatim>\<open>metro.Hash64\<close> comes from package \<^verbatim>\<open>github.com/dgryski/go-metro\<close>; it is the
  parameter \<open>Hash64\<close>, from the bytes and the seed to a 64-bit hash.
\<close>

definition Add :: "(u8 list \<Rightarrow> u64 \<Rightarrow> u64) \<Rightarrow> LogLogBeta \<Rightarrow> u8 list \<Rightarrow> panic + LogLogBeta" where
  "Add Hash64 llb val =
     (let x = Hash64 val 1337 in AddHash llb x)"

subsection \<open>Estimator\<close>

text \<open>
  The number \<^verbatim>\<open>Cardinality\<close> returns comes out of \<^verbatim>\<open>float64\<close> arithmetic,
  \<^verbatim>\<open>math.Log\<close>, \<^verbatim>\<open>math.Pow\<close> and the conversion to \<^verbatim>\<open>uint64\<close>, all fields of
  \<open>float_ops\<close>; the embedding fixes the order of the operations and nothing about
  their results.
\<close>

definition Cardinality :: "float_ops \<Rightarrow> LogLogBeta \<Rightarrow> u64" where
  "Cardinality fp llb =
     (let (sum_r, ez) = regSumAndZeros fp (registers llb);
          mf = float64_of_nat (unat m)
      in f_to_u64 fp
           (f_div fp (f_mul fp (f_mul fp (alpha llb) mf) (f_sub fp mf ez))
                     (f_add fp (beta fp ez) sum_r)))"

subsection \<open>Merger\<close>

text \<open>
  \<^verbatim>\<open>Merge\<close> has a pointer receiver and a pointer argument, so the sketches are
  objects of a store and the two pointers may be equal. The \<^verbatim>\<open>range\<close> clause
  iterates over a copy of the receiver's array taken on entry (the list \<open>vs\<close> of
  the values still to visit); \<^verbatim>\<open>other.registers[i]\<close> and the assignment go through
  the store at every step.
\<close>

type_synonym ptr = nat
type_synonym store = "ptr \<rightharpoonup> LogLogBeta"

fun Merge_range :: "ptr \<Rightarrow> ptr \<Rightarrow> nat \<Rightarrow> u8 list \<Rightarrow> store \<Rightarrow> panic + store" where
  "Merge_range llb other i [] h = Inr h"
| "Merge_range llb other i (v # vs) h =
     (case h other of
        None \<Rightarrow> Inl NilDereference
      | Some ob \<Rightarrow>
          if i < length (registers ob)
          then (if v < registers ob ! i
                then (case h llb of
                        None \<Rightarrow> Inl NilDereference
                      | Some lb \<Rightarrow>
                          if i < length (registers lb)
                          then Merge_range llb other (Suc i) vs
                                 (h(llb \<mapsto> lb\<lparr>registers := (registers lb)[i := registers ob ! i]\<rparr>))
                          else Inl IndexOutOfRange)
                else Merge_range llb other (Suc i) vs h)
          else Inl IndexOutOfRange)"

definition Merge :: "store \<Rightarrow> ptr \<Rightarrow> ptr \<Rightarrow> panic + store" where
  "Merge h llb other =
     (case h llb of
        None \<Rightarrow> Inl NilDereference
      | Some lb \<Rightarrow> Merge_range llb other 0 (registers lb) h)"

subsection \<open>Codec\<close>

text \<open>
  Package \<^verbatim>\<open>encoding/gob\<close> is not part of the source file. Its encoder and decoder
  for the type \<^verbatim>\<open>savedLLB\<close> are the parameters \<open>Encode\<close> and \<open>Decode\<close>: the encoder
  gives the bytes written to the buffer and the error, the decoder fills a fresh
  \<^verbatim>\<open>savedLLB\<close> or fails.
\<close>

definition MarshalBinary ::
  "(savedLLB \<Rightarrow> u8 list \<times> error option) \<Rightarrow> LogLogBeta \<Rightarrow> u8 list \<times> error option" where
  "MarshalBinary Encode llb =
     Encode \<lparr>Registers = registers llb, Alpha = alpha llb, Version = version\<rparr>"

definition UnmarshalBinary ::
  "(u8 list \<Rightarrow> error + savedLLB) \<Rightarrow> LogLogBeta \<Rightarrow> u8 list \<Rightarrow> LogLogBeta \<times> error option" where
  "UnmarshalBinary Decode llb data =
     (case Decode data of
        Inl err \<Rightarrow> (llb, Some err)
      | Inr sllb \<Rightarrow> (llb\<lparr>registers := Registers sllb, alpha := Alpha sllb\<rparr>, None))"

subsection \<open>Sample values\<close>

text \<open>
  Closed instances of the theorems below need concrete values for the parameters.

  The codec instance follows the logical layout the spec gives for the binary
  format, \<^verbatim>\<open>{version: int, alpha: float64, registers: fixed-length array of 16384 uint8}\<close>:
  eight bytes of version, eight bytes of alpha (both most significant byte first),
  then one byte for each register. Input of any other length is rejected. It is
  not gob's wire format; it only instantiates \<open>Encode\<close> and \<open>Decode\<close>.
\<close>

definition be64 :: "u64 \<Rightarrow> u8 list" where
  "be64 w = map (\<lambda>i. ucast (drop_bit (8 * i) w)) [7, 6, 5, 4, 3, 2, 1, 0]"

definition un_be64 :: "u8 list \<Rightarrow> u64" where
  "un_be64 bs = foldl (\<lambda>acc b. push_bit 8 acc OR ucast b) 0 bs"

definition layout_Encode :: "savedLLB \<Rightarrow> u8 list \<times> error option" where
  "layout_Encode s = (be64 (of_int (Version s)) @ be64 (Alpha s) @ Registers s, None)"

definition layout_Decode :: "u8 list \<Rightarrow> error + savedLLB" where
  "layout_Decode data =
     (if length data = 16 + unat m
      then Inr \<lparr>Registers = drop 16 data,
                Alpha = un_be64 (take 8 (drop 8 data)),
                Version = sint (un_be64 (take 8 data))\<rparr>
      else Inl ''unexpected EOF'')"

text \<open>
  \<open>ex_fp\<close> tabulates the four roundings that \<^verbatim>\<open>New\<close> performs, with the results of
  IEEE-754 round-to-nearest: the literals \<^verbatim>\<open>0.7213\<close> and \<^verbatim>\<open>1.079\<close>, the quotient
  \<^verbatim>\<open>1.079 / 16384\<close>, the sum with \<^verbatim>\<open>1\<close> and the final quotient. Every other entry
  is zero, so \<open>ex_fp\<close> is good for running \<open>New\<close> only.
\<close>

definition ex_fp :: float_ops where
  "ex_fp = \<lparr>
     f_lit = (\<lambda>n k. if n = 7213 \<and> k = 4 then 0x3FE714E3BCD35A86
                    else if n = 1079 \<and> k = 3 then 0x3FF14395810624DD else 0),
     f_add = (\<lambda>a b. if a = 0x3FF0000000000000 \<and> b = 0x3F114395810624DD
                    then 0x3FF000450E560419 else 0),
     f_sub = (\<lambda>a b. 0),
     f_mul = (\<lambda>a b. 0),
     f_div = (\<lambda>a b. if a = 0x3FF14395810624DD \<and> b = 0x40D0000000000000
                    then 0x3F114395810624DD
                    else if a = 0x3FE714E3BCD35A86 \<and> b = 0x3FF000450E560419
                    then 0x3FE714801FBCCD72 else 0),
     f_log = (\<lambda>a. 0),
     f_pow = (\<lambda>a b. 0),
     f_to_u64 = (\<lambda>a. 0)\<rparr>"

definition ex_Hash64 :: "u8 list \<Rightarrow> u64 \<Rightarrow> u64" where
  "ex_Hash64 bs seed = seed + of_nat (length bs)"

text \<open>
  Two sketches with the alpha of \<open>New ex_fp\<close> and one register set each, and a store
  that holds the first one twice.
\<close>

definition ex_A :: LogLogBeta where
  "ex_A = \<lparr>registers = (replicate 16384 0)[3 := 7], alpha = 0x3FE714801FBCCD72\<rparr>"

definition ex_B :: LogLogBeta where
  "ex_B = \<lparr>registers = (replicate 16384 0)[5 := 2], alpha = 0x3FE714801FBCCD72\<rparr>"

definition ex_store :: store where
  "ex_store = [0 \<mapsto> ex_A, 1 \<mapsto> ex_B, 2 \<mapsto> ex_A]"

section \<open>Facts about the constants and the hash splitter\<close>

lemma unat_m: "unat m = 16384"
  by (simp add: m_def precision_def)

lemma maxX_val: "maxX = 16383"
  by (simp add: maxX_def max_const_def precision_def mask_eq_exp_minus_1)

lemma clz_from_bit: "j < n \<Longrightarrow> bit x j \<Longrightarrow> clz_from n x \<le> n - Suc j"
proof (induction n)
  case 0
  then show ?case by simp
next
  case (Suc n)
  show ?case
  proof (cases "bit x n")
    case True
    then show ?thesis by simp
  next
    case False
    with Suc.prems have "j < n" by (cases "j = n") auto
    with Suc.IH Suc.prems have "clz_from n x \<le> n - Suc j" by simp
    with False \<open>j < n\<close> show ?thesis by simp
  qed
qed

lemma low_bit_set: "bit (push_bit precision x XOR maxX :: u64) 13"
  by (simp add: maxX_val precision_def bit_simps)

lemma clz_arg_le: "clz_from 64 (push_bit precision x XOR maxX) \<le> 50"
  using clz_from_bit [of 13 64, OF _ low_bit_set] by simp

lemma index_lt: "unat (drop_bit max_const (x :: u64)) < 16384"
proof -
  have "unat x < 2 ^ 64" using unsigned_less [of x] by simp
  then have "unat x div 2 ^ 50 < 2 ^ 14" by (simp add: less_mult_imp_div_less)
  moreover have "unat (drop_bit max_const x) = unat x div 2 ^ 50"
    unfolding unat_drop_bit_eq by (simp add: drop_bit_eq_div max_const_def precision_def)
  ultimately show ?thesis by simp
qed

lemma rank_val: "unat (snd (getPosVal x)) = 1 + clz_from 64 (push_bit precision x XOR maxX)"
proof -
  let ?c = "clz_from 64 (push_bit precision x XOR maxX)"
  have c: "?c \<le> 50" by (rule clz_arg_le)
  have "unat (of_nat ?c :: u64) = ?c" using c by (simp add: unat_of_nat)
  then have "unat (ucast (of_nat ?c :: u64) :: u8) = ?c" using c
    by (simp add: unsigned_ucast_eq take_bit_eq_mod)
  then have "unat ((ucast (of_nat ?c :: u64) :: u8) + 1) = ?c + 1" using c
    by (simp add: unat_word_ariths)
  then show ?thesis by (simp add: getPosVal_def Clz_def Let_def)
qed

lemma getPosVal_index_lt: "unat (fst (getPosVal x)) < unat m"
  using index_lt [of x] by (simp add: getPosVal_def Let_def unat_m)

lemma getPosVal_examples:
  "getPosVal 0 = (0, 51)"
  "getPosVal (- 1) = (16383, 1)"
  "getPosVal 0xC000000000001 = (3, 50)"
  by code_simp+

section \<open>Facts about ingestion\<close>

lemma AddHash_eq:
  assumes "wf_sketch llb"
  shows "AddHash llb x =
           Inr (if registers llb ! unat (fst (getPosVal x)) < snd (getPosVal x)
                then llb\<lparr>registers := (registers llb)[unat (fst (getPosVal x)) := snd (getPosVal x)]\<rparr>
                else llb)"
  using assms getPosVal_index_lt [of x]
  by (simp add: AddHash_def wf_sketch_def split_beta)

lemma AddHash_mono:
  assumes "wf_sketch llb"
  shows "\<exists>llb'. AddHash llb x = Inr llb' \<and> wf_sketch llb' \<and> alpha llb' = alpha llb
           \<and> registers llb ! i \<le> registers llb' ! i"
proof (cases "registers llb ! unat (fst (getPosVal x)) < snd (getPosVal x)")
  case True
  let ?k = "unat (fst (getPosVal x))"
  have "registers llb ! i \<le> (registers llb)[?k := snd (getPosVal x)] ! i"
  proof (cases "i = ?k")
    case eq: True
    with True assms getPosVal_index_lt [of x] show ?thesis
      by (simp add: wf_sketch_def less_imp_le)
  next
    case False
    then show ?thesis by simp
  qed
  with True assms show ?thesis by (simp add: AddHash_eq wf_sketch_def)
next
  case False
  with assms show ?thesis by (simp add: AddHash_eq)
qed

section \<open>Facts about the merge loop\<close>

text \<open>
  The loop invariant: after \<open>i\<close> steps the receiver holds the register-wise maximum
  on the first \<open>i\<close> registers and its old values on the rest. When both pointers are
  the same object the strict comparison never succeeds, so the store is not written.
\<close>

lemma Merge_range_eq:
  assumes "h llb = Some lb" and "h other = Some ob"
    and "length (registers lb) = n" and "length (registers ob) = n"
    and "vs = drop i (registers lb)"
  shows "Merge_range llb other i vs h =
           Inr (h(llb \<mapsto> lb\<lparr>registers := take i (registers lb) @ map2 max vs (drop i (registers ob))\<rparr>))"
  using assms
proof (induction vs arbitrary: i h lb)
  case Nil
  then have "i \<ge> length (registers lb)" by simp
  then have "lb\<lparr>registers := take i (registers lb) @ map2 max [] (drop i (registers ob))\<rparr> = lb"
    by simp
  with Nil show ?case by (simp add: map_upd_triv)
next
  case (Cons v vs)
  note hl = Cons.prems(1) and ho = Cons.prems(2) and ll = Cons.prems(3) and lo = Cons.prems(4)
  from Cons.prems have i: "i < n"
    by (metis drop_eq_Nil2 list.distinct(1) not_le)
  from Cons.prems(5) i ll have v: "v = registers lb ! i" and vs: "vs = drop (Suc i) (registers lb)"
    by (simp_all add: Cons_nth_drop_Suc [symmetric])
  from lo i have dob: "drop i (registers ob) = registers ob ! i # drop (Suc i) (registers ob)"
    by (simp add: Cons_nth_drop_Suc)
  show ?case
  proof (cases "v < registers ob ! i")
    case True
    have ne: "llb \<noteq> other"
    proof
      assume "llb = other"
      with hl ho have "lb = ob" by simp
      with v True show False by simp
    qed
    let ?lb = "lb\<lparr>registers := (registers lb)[i := registers ob ! i]\<rparr>"
    let ?h = "h(llb \<mapsto> ?lb)"
    have step: "Merge_range llb other i (v # vs) h = Merge_range llb other (Suc i) vs ?h"
      using True i hl ho ll lo by simp
    have ih: "Merge_range llb other (Suc i) vs ?h =
            Inr (?h(llb \<mapsto> ?lb\<lparr>registers := take (Suc i) (registers ?lb) @ map2 max vs (drop (Suc i) (registers ob))\<rparr>))"
      using ho ll lo ne vs by (intro Cons.IH) simp_all
    have tk: "take (Suc i) (registers ?lb) = take i (registers lb) @ [max v (registers ob ! i)]"
      using True i ll by (simp add: take_Suc_conv_app_nth max_absorb2 less_imp_le)
    have eq: "take (Suc i) (registers ?lb) @ map2 max vs (drop (Suc i) (registers ob))
            = take i (registers lb) @ map2 max (v # vs) (drop i (registers ob))"
      unfolding tk dob by simp
    have upd: "?h(llb \<mapsto> ?lb\<lparr>registers := rs\<rparr>) = h(llb \<mapsto> lb\<lparr>registers := rs\<rparr>)" for rs
      by simp
    show ?thesis unfolding step ih upd eq ..
  next
    case False
    have step: "Merge_range llb other i (v # vs) h = Merge_range llb other (Suc i) vs h"
      using False i ho lo by simp
    have ih: "Merge_range llb other (Suc i) vs h =
            Inr (h(llb \<mapsto> lb\<lparr>registers := take (Suc i) (registers lb) @ map2 max vs (drop (Suc i) (registers ob))\<rparr>))"
      using hl ho ll lo vs by (intro Cons.IH) simp_all
    have tk: "take (Suc i) (registers lb) = take i (registers lb) @ [max v (registers ob ! i)]"
      using False i ll v by (simp add: take_Suc_conv_app_nth max_absorb1 not_less)
    have eq: "take (Suc i) (registers lb) @ map2 max vs (drop (Suc i) (registers ob))
            = take i (registers lb) @ map2 max (v # vs) (drop i (registers ob))"
      unfolding tk dob by simp
    show ?thesis unfolding step ih eq ..
  qed
qed

lemma Merge_eq:
  assumes "h llb = Some lb" and "h other = Some ob" and "wf_sketch lb" and "wf_sketch ob"
  shows "Merge h llb other = Inr (h(llb \<mapsto> lb\<lparr>registers := map2 max (registers lb) (registers ob)\<rparr>))"
  using Merge_range_eq [OF assms(1,2), of "unat m" "registers lb" 0] assms
  by (simp add: Merge_def wf_sketch_def)

lemma map2_max_commute:
  fixes xs ys :: "u8 list"
  shows "map2 max xs ys = map2 max ys xs"
proof (induction xs arbitrary: ys)
  case Nil
  then show ?case by simp
next
  case (Cons x xs)
  then show ?case by (cases ys) (simp_all add: max.commute)
qed

lemma map2_max_same:
  fixes xs :: "u8 list"
  shows "map2 max xs xs = xs"
  by (induction xs) simp_all

lemma Merge_self:
  assumes "h a = Some A" and "wf_sketch A"
  shows "Merge h a a = Inr h"
proof -
  have "A\<lparr>registers := map2 max (registers A) (registers A)\<rparr> = A"
    by (simp add: map2_max_same)
  moreover have "Merge h a a = Inr (h(a \<mapsto> A\<lparr>registers := map2 max (registers A) (registers A)\<rparr>))"
    using assms by (intro Merge_eq)
  ultimately show ?thesis using assms(1)
    by (simp add: map_upd_triv)
qed

section \<open>Facts about the float constants and the sample values\<close>




lemma wf_ex: "wf_sketch ex_A" "wf_sketch ex_B"
  by (simp_all add: wf_sketch_def ex_A_def ex_B_def unat_m)




lemma ex_hyps:
  "ex_store 0 = Some ex_A \<and> ex_store (Suc 0) = Some ex_B \<and> ex_store 2 = Some ex_A
   \<and> wf_sketch ex_A \<and> wf_sketch ex_B \<and> (3::nat) < unat m"
  by (simp add: ex_store_def wf_ex unat_m)

lemma AddHash_example:
  "AddHash ex_A 0xC000000000001 = Inr (ex_A\<lparr>registers := (replicate 16384 0)[3 := 50]\<rparr>)"
  by (simp add: AddHash_def getPosVal_examples ex_A_def)

text \<open>
  The sample codec loses nothing: decoding what it encoded gives the saved value
  back, so unmarshalling a marshalled sketch restores it, whatever the sketch.
\<close>

lemma shifted_byte_bit:
  "bit (push_bit k (ucast (ucast (drop_bit k (w::u64)) :: u8) :: u64)) n
     = (k \<le> n \<and> n < k + 8 \<and> n < 64 \<and> bit w n)"
  by (auto simp: bit_simps)

lemma low_byte_bit:
  "bit (ucast (ucast (w::u64) :: u8) :: u64) n = (n < 8 \<and> bit w n)"
  by (auto simp: bit_simps)

lemma un_be64_be64: "un_be64 (be64 w) = w"
proof (rule bit_word_eqI)
  fix n assume "n < LENGTH(64)"
  then have n: "n < 64" by simp
  have "bit (un_be64 (be64 w)) n = 
     ((56 \<le> n \<and> n < 64 \<and> bit w n) \<or> (48 \<le> n \<and> n < 56 \<and> bit w n) \<or> (40 \<le> n \<and> n < 48 \<and> bit w n)
      \<or> (32 \<le> n \<and> n < 40 \<and> bit w n) \<or> (24 \<le> n \<and> n < 32 \<and> bit w n) \<or> (16 \<le> n \<and> n < 24 \<and> bit w n)
      \<or> (8 \<le> n \<and> n < 16 \<and> bit w n) \<or> (n < 8 \<and> bit w n))"
    using n by (simp add: un_be64_def be64_def bit_or_iff shifted_byte_bit low_byte_bit)
  also have "\<dots> = bit w n" using n by arith
  finally show "bit (un_be64 (be64 w)) n = bit w n" .
qed

lemma layout_roundtrip:
  assumes "length (Registers s) = unat m" and "- (2 ^ 63) \<le> Version s" and "Version s < 2 ^ 63"
  shows "layout_Decode (fst (layout_Encode s)) = Inr s"
proof -
  have l: "length (be64 w) = 8" for w by (simp add: be64_def)
  have "sint (word_of_int (Version s) :: u64) = Version s"
    using assms(2,3) by (simp add: sint_sbintrunc' signed_take_bit_int_eq_self)
  then show ?thesis using assms(1)
    by (simp add: layout_Decode_def layout_Encode_def l un_be64_be64)
qed

lemma layout_sketch_roundtrip:
  assumes "wf_sketch S"
  shows "UnmarshalBinary layout_Decode T (fst (MarshalBinary layout_Encode S)) = (S, None)"
proof -
  let ?s = "\<lparr>Registers = registers S, Alpha = alpha S, Version = version\<rparr>"
  have "layout_Decode (fst (layout_Encode ?s)) = Inr ?s"
    using assms by (intro layout_roundtrip) (simp_all add: wf_sketch_def version_def)
  then show ?thesis
    by (simp add: MarshalBinary_def UnmarshalBinary_def)
qed

lemma Merge_example:
  "Merge ex_store 0 1
     = Inr (ex_store(0 \<mapsto> \<lparr>registers = (replicate 16384 0)[3 := 7, 5 := 2],
                               alpha = 0x3FE714801FBCCD72\<rparr>))"
proof -
  have "map2 max ((replicate 16384 (0::u8))[3 := 7]) ((replicate 16384 0)[5 := 2])
          = (replicate 16384 0)[3 := 7, 5 := 2]"
    by (rule nth_equalityI) (auto simp: nth_list_update)
  moreover have "Merge ex_store 0 1
     = Inr (ex_store(0 \<mapsto> ex_A\<lparr>registers := map2 max (registers ex_A) (registers ex_B)\<rparr>))"
    using ex_hyps by (intro Merge_eq) simp_all
  ultimately show ?thesis by (simp add: ex_A_def ex_B_def)
qed

section \<open>The claims\<close>

text \<open>
  C5. For every 64-bit hash \<open>x\<close> the splitter returns the index \<open>x >> (64 - precision)\<close>,
  with \<open>precision = 14\<close>, which lies in \<open>[0, m)\<close> for \<open>m = 2 ^ 14\<close>, and the rank
  \<open>1 + Clz ((x << precision) XOR maxX)\<close>, which lies in \<open>[1, 64 - precision + 1] = [1, 51]\<close>.
\<close>

theorem getPosVal_index_rank:
  "fst (getPosVal x) = drop_bit (64 - precision) x
   \<and> precision = 14 \<and> unat m = 2 ^ 14
   \<and> unat (fst (getPosVal x)) < unat m
   \<and> unat (snd (getPosVal x)) = 1 + unat (Clz (push_bit precision x XOR maxX))
   \<and> 1 \<le> unat (snd (getPosVal x))
   \<and> unat (snd (getPosVal x)) \<le> 64 - precision + 1
   \<and> 64 - precision + 1 = 51"
proof -
  let ?c = "clz_from 64 (push_bit precision x XOR maxX)"
  have c: "?c \<le> 50" by (rule clz_arg_le)
  have u: "unat (Clz (push_bit precision x XOR maxX)) = ?c"
    using c by (simp add: Clz_def unat_of_nat)
  have r: "unat (snd (getPosVal x)) = 1 + ?c" by (rule rank_val)
  have k: "fst (getPosVal x) = drop_bit (64 - precision) x"
    by (simp add: getPosVal_def Let_def max_const_def)
  from k unat_m getPosVal_index_lt [of x] u r c show ?thesis
    by (simp add: precision_def)
qed



text \<open>
  C3. Merge is commutative and idempotent on the registers: for sketches \<open>A\<close> at \<open>a\<close>
  and \<open>B\<close> at \<open>b\<close>, the registers of \<open>a\<close> after \<open>Merge a b\<close> are the registers of \<open>b\<close>
  after \<open>Merge b a\<close>; merging a sketch into itself leaves the whole store as it was,
  and merging an equal copy \<open>C\<close> into \<open>A\<close> leaves the registers of \<open>A\<close> as they were.
\<close>

theorem Merge_commutative_idempotent:
  assumes "h a = Some A" and "h b = Some B" and "h c = Some C"
    and "wf_sketch A" and "wf_sketch B" and "registers C = registers A"
  shows "(\<exists>h1 h2 A1 B2. Merge h a b = Inr h1 \<and> Merge h b a = Inr h2
            \<and> h1 a = Some A1 \<and> h2 b = Some B2 \<and> registers A1 = registers B2)
       \<and> Merge h a a = Inr h
       \<and> (\<exists>h3 A3. Merge h a c = Inr h3 \<and> h3 a = Some A3 \<and> registers A3 = registers A)"
proof -
  have wc: "wf_sketch C" using assms by (simp add: wf_sketch_def)
  have ab: "Merge h a b = Inr (h(a \<mapsto> A\<lparr>registers := map2 max (registers A) (registers B)\<rparr>))"
    using assms by (intro Merge_eq)
  have ba: "Merge h b a = Inr (h(b \<mapsto> B\<lparr>registers := map2 max (registers B) (registers A)\<rparr>))"
    using assms by (intro Merge_eq)
  have ac: "Merge h a c = Inr (h(a \<mapsto> A\<lparr>registers := map2 max (registers A) (registers C)\<rparr>))"
    using assms wc by (intro Merge_eq)
  have comm: "map2 max (registers A) (registers B) = map2 max (registers B) (registers A)"
    by (rule map2_max_commute)
  have idem: "map2 max (registers A) (registers C) = registers A"
    using assms by (simp add: map2_max_same)
  from ab ba comm have "\<exists>h1 h2 A1 B2. Merge h a b = Inr h1 \<and> Merge h b a = Inr h2
            \<and> h1 a = Some A1 \<and> h2 b = Some B2 \<and> registers A1 = registers B2"
    by simp
  moreover have "Merge h a a = Inr h" using assms by (intro Merge_self)
  moreover from ac idem have "\<exists>h3 A3. Merge h a c = Inr h3 \<and> h3 a = Some A3 \<and> registers A3 = registers A"
    by simp
  ultimately show ?thesis by blast
qed

theorem Merge_commutative_idempotent_witness:
  "(ex_store 0 = Some ex_A \<and> ex_store 1 = Some ex_B \<and> ex_store 2 = Some ex_A
    \<and> wf_sketch ex_A \<and> wf_sketch ex_B \<and> registers ex_A = registers ex_A)
   \<and> (\<exists>h1 h2 A1 B2. Merge ex_store 0 1 = Inr h1 \<and> Merge ex_store 1 0 = Inr h2
            \<and> h1 0 = Some A1 \<and> h2 1 = Some B2 \<and> registers A1 = registers B2)
   \<and> Merge ex_store 0 0 = Inr ex_store
   \<and> (\<exists>h3 A3. Merge ex_store 0 2 = Inr h3 \<and> h3 0 = Some A3 \<and> registers A3 = registers ex_A)"
proof -
  have h: "ex_store 0 = Some ex_A" "ex_store 1 = Some ex_B" "ex_store 2 = Some ex_A"
    "wf_sketch ex_A" "wf_sketch ex_B" "registers ex_A = registers ex_A"
    using ex_hyps by simp_all
  note c = Merge_commutative_idempotent
    [where h = ex_store and a = 0 and b = 1 and c = 2 and A = ex_A and B = ex_B and C = ex_A,
     OF h]
  from h c show ?thesis by blast
qed

text \<open>
  C4. Registers never decrease: for every register index \<open>i\<close>, one call of \<^verbatim>\<open>AddHash\<close>,
  \<^verbatim>\<open>Add\<close> or \<^verbatim>\<open>Merge\<close> returns normally and leaves register \<open>i\<close> at least as large
  as before; for \<^verbatim>\<open>Merge\<close> this holds for every sketch \<open>C\<close> of the store, receiver and
  argument included.
\<close>

theorem registers_never_decrease:
  assumes "wf_sketch llb" and "i < unat m"
    and "h a = Some A" and "h b = Some B" and "h c = Some C"
    and "wf_sketch A" and "wf_sketch B"
  shows "(\<exists>llb'. AddHash llb x = Inr llb' \<and> registers llb ! i \<le> registers llb' ! i)
       \<and> (\<exists>llb'. Add Hash64 llb val = Inr llb' \<and> registers llb ! i \<le> registers llb' ! i)
       \<and> (\<exists>h' C'. Merge h a b = Inr h' \<and> h' c = Some C' \<and> registers C ! i \<le> registers C' ! i)"
proof -
  have 1: "\<exists>llb'. AddHash llb x = Inr llb' \<and> registers llb ! i \<le> registers llb' ! i" for x
    using AddHash_mono [OF assms(1), of x i] by blast
  have ab: "Merge h a b = Inr (h(a \<mapsto> A\<lparr>registers := map2 max (registers A) (registers B)\<rparr>))"
    using assms by (intro Merge_eq)
  have "registers A ! i \<le> map2 max (registers A) (registers B) ! i"
    using assms by (simp add: wf_sketch_def)
  with ab assms have 3: "\<exists>h' C'. Merge h a b = Inr h' \<and> h' c = Some C' \<and> registers C ! i \<le> registers C' ! i"
    by (cases "c = a") simp_all
  from 1 [of x] 1 [of "Hash64 val 1337"] 3 show ?thesis
    by (simp add: Add_def)
qed

theorem registers_never_decrease_witness:
  "(wf_sketch ex_A \<and> (3::nat) < unat m
    \<and> ex_store 0 = Some ex_A \<and> ex_store 1 = Some ex_B \<and> ex_store 2 = Some ex_A
    \<and> wf_sketch ex_A \<and> wf_sketch ex_B)
   \<and> (\<exists>llb'. AddHash ex_A 0xC000000000001 = Inr llb' \<and> registers ex_A ! 3 \<le> registers llb' ! 3)
   \<and> (\<exists>llb'. Add ex_Hash64 ex_A [0x61] = Inr llb' \<and> registers ex_A ! 3 \<le> registers llb' ! 3)
   \<and> (\<exists>h' C'. Merge ex_store 0 1 = Inr h' \<and> h' 2 = Some C' \<and> registers ex_A ! 3 \<le> registers C' ! 3)"
proof -
  have h: "wf_sketch ex_A" "(3::nat) < unat m"
    "ex_store 0 = Some ex_A" "ex_store 1 = Some ex_B" "ex_store 2 = Some ex_A"
    "wf_sketch ex_A" "wf_sketch ex_B"
    using ex_hyps by simp_all
  note c = registers_never_decrease
    [where llb = ex_A and i = 3 and h = ex_store and a = 0 and b = 1 and c = 2
       and A = ex_A and B = ex_B and C = ex_A and x = "0xC000000000001"
       and ?Hash64.0 = ex_Hash64 and val = "[0x61]", OF h]
  from h c show ?thesis by blast
qed

text \<open>
  C7. Unmarshalling is atomic on failure: whenever the decoder rejects the bytes,
  \<^verbatim>\<open>UnmarshalBinary\<close> returns that error and the receiver as it was, registers and
  alpha included. Invalid or truncated input is input the decoder rejects.
\<close>

theorem UnmarshalBinary_atomic_on_failure:
  assumes "Decode data = Inl err"
  shows "UnmarshalBinary Decode llb data = (llb, Some err)
       \<and> snd (UnmarshalBinary Decode llb data) \<noteq> None
       \<and> registers (fst (UnmarshalBinary Decode llb data)) = registers llb
       \<and> alpha (fst (UnmarshalBinary Decode llb data)) = alpha llb"
  using assms by (simp add: UnmarshalBinary_def)

theorem UnmarshalBinary_atomic_on_failure_witness:
  "layout_Decode [0, 0, 0, 0, 0, 0, 0, 1, 0x3F] = Inl ''unexpected EOF''
   \<and> UnmarshalBinary layout_Decode ex_A [0, 0, 0, 0, 0, 0, 0, 1, 0x3F] = (ex_A, Some ''unexpected EOF'')
   \<and> snd (UnmarshalBinary layout_Decode ex_A [0, 0, 0, 0, 0, 0, 0, 1, 0x3F]) \<noteq> None
   \<and> registers (fst (UnmarshalBinary layout_Decode ex_A [0, 0, 0, 0, 0, 0, 0, 1, 0x3F])) = registers ex_A
   \<and> alpha (fst (UnmarshalBinary layout_Decode ex_A [0, 0, 0, 0, 0, 0, 0, 1, 0x3F])) = alpha ex_A"
proof -
  have d: "layout_Decode [0, 0, 0, 0, 0, 0, 0, 1, 0x3F] = Inl ''unexpected EOF''"
    by (simp add: layout_Decode_def unat_m)
  from d UnmarshalBinary_atomic_on_failure
         [where Decode = layout_Decode and data = "[0, 0, 0, 0, 0, 0, 0, 1, 0x3F]"
            and err = "''unexpected EOF''" and llb = ex_A]
  show ?thesis by simp
qed

text \<open>
  C8. No operation fails: for every 64-bit hash \<open>x\<close> the index \<open>x >> 50\<close> is below
  \<open>m = 16384\<close>, so \<^verbatim>\<open>AddHash\<close> and \<^verbatim>\<open>Add\<close> return a sketch and never the panic of an
  index out of range, and \<^verbatim>\<open>Merge\<close> of two sketches of the store returns a store.
  \<^verbatim>\<open>Cardinality\<close> has no failing operation in the source and is a plain function
  here, so its conjunct holds by its type alone.
\<close>

theorem operations_total:
  assumes "wf_sketch llb" and "h a = Some A" and "h b = Some B" and "wf_sketch A" and "wf_sketch B"
  shows "fst (getPosVal x) = drop_bit 50 x \<and> unat m = 16384
       \<and> unat (fst (getPosVal x)) < unat m
       \<and> (\<exists>llb'. AddHash llb x = Inr llb' \<and> wf_sketch llb')
       \<and> (\<exists>llb'. Add Hash64 llb val = Inr llb' \<and> wf_sketch llb')
       \<and> (\<exists>n. Cardinality fp llb = n)
       \<and> (\<exists>h' A'. Merge h a b = Inr h' \<and> h' a = Some A' \<and> wf_sketch A')"
proof -
  have k: "fst (getPosVal x) = drop_bit 50 x"
    by (simp add: getPosVal_def Let_def max_const_def precision_def)
  have 1: "\<exists>llb'. AddHash llb x = Inr llb' \<and> wf_sketch llb'" for x
    using AddHash_mono [OF assms(1), of x 0] by blast
  have "Merge h a b = Inr (h(a \<mapsto> A\<lparr>registers := map2 max (registers A) (registers B)\<rparr>))"
    using assms by (intro Merge_eq)
  moreover have "wf_sketch (A\<lparr>registers := map2 max (registers A) (registers B)\<rparr>)"
    using assms by (simp add: wf_sketch_def)
  ultimately have 3: "\<exists>h' A'. Merge h a b = Inr h' \<and> h' a = Some A' \<and> wf_sketch A'"
    by simp
  from k unat_m getPosVal_index_lt [of x] 1 [of x] 1 [of "Hash64 val 1337"] 3 show ?thesis
    by (simp add: Add_def)
qed

theorem operations_total_witness:
  "(wf_sketch ex_A \<and> ex_store 0 = Some ex_A \<and> ex_store 1 = Some ex_B
    \<and> wf_sketch ex_A \<and> wf_sketch ex_B)
   \<and> fst (getPosVal 0xC000000000001) = drop_bit 50 0xC000000000001 \<and> unat m = 16384
   \<and> unat (fst (getPosVal 0xC000000000001)) < unat m
   \<and> (\<exists>llb'. AddHash ex_A 0xC000000000001 = Inr llb' \<and> wf_sketch llb')
   \<and> (\<exists>llb'. Add ex_Hash64 ex_A [0x61] = Inr llb' \<and> wf_sketch llb')
   \<and> (\<exists>n. Cardinality ex_fp ex_A = n)
   \<and> (\<exists>h' A'. Merge ex_store 0 1 = Inr h' \<and> h' 0 = Some A' \<and> wf_sketch A')"
proof -
  have h: "wf_sketch ex_A" "ex_store 0 = Some ex_A" "ex_store 1 = Some ex_B"
    "wf_sketch ex_A" "wf_sketch ex_B"
    using ex_hyps by simp_all
  note c = operations_total
    [where llb = ex_A and h = ex_store and a = 0 and b = 1 and A = ex_A and B = ex_B
       and x = "0xC000000000001" and ?Hash64.0 = ex_Hash64 and val = "[0x61]" and fp = ex_fp,
     OF h]
  from h c show ?thesis by blast
qed




text \<open>
  C10. Merge does not modify its argument: after \<open>Merge a b\<close> the store differs from
  the old one at most at the receiver \<open>a\<close>, and the sketch at \<open>b\<close> is the sketch \<open>B\<close>
  that was there, with its registers and its alpha; this includes the call where
  both pointers are the same.
\<close>

theorem Merge_argument_unchanged:
  assumes "h a = Some A" and "h b = Some B" and "wf_sketch A" and "wf_sketch B"
  shows "\<exists>h' A'. Merge h a b = Inr h' \<and> h' = h(a \<mapsto> A')
           \<and> h' b = Some B \<and> registers (the (h' b)) = registers B \<and> alpha (the (h' b)) = alpha B"
proof (cases "a = b")
  case True
  with assms have "Merge h a b = Inr h" by (simp add: Merge_self)
  moreover have "h = h(a \<mapsto> A)" using assms by (simp add: map_upd_triv)
  ultimately show ?thesis using assms by auto
next
  case False
  have "Merge h a b = Inr (h(a \<mapsto> A\<lparr>registers := map2 max (registers A) (registers B)\<rparr>))"
    using assms by (intro Merge_eq)
  with False assms show ?thesis by auto
qed

theorem Merge_argument_unchanged_witness:
  "(ex_store 0 = Some ex_A \<and> ex_store 1 = Some ex_B \<and> wf_sketch ex_A \<and> wf_sketch ex_B)
   \<and> (\<exists>h' A'. Merge ex_store 0 1 = Inr h' \<and> h' = ex_store(0 \<mapsto> A')
           \<and> h' 1 = Some ex_B \<and> registers (the (h' 1)) = registers ex_B
           \<and> alpha (the (h' 1)) = alpha ex_B)"
proof -
  have h: "ex_store 0 = Some ex_A" "ex_store 1 = Some ex_B" "wf_sketch ex_A" "wf_sketch ex_B"
    using ex_hyps by simp_all
  note c = Merge_argument_unchanged
    [where h = ex_store and a = 0 and b = 1 and A = ex_A and B = ex_B, OF h]
  from h c show ?thesis by blast
qed

end
